theory Spec2Isabelle
  imports Main
begin

section \<open>The server endpoint: errors and the retry wrapper\<close>

text \<open>
  Values a generation routine can throw. \<open>APIError\<close> is the provider client's error class
  with its optional HTTP \<open>status\<close> and optional error \<open>code\<close>; \<open>JsError\<close> is a plain
  \<open>Error\<close> with its message; \<open>NonError\<close> is any thrown value that is not an \<open>Error\<close>.
\<close>

datatype jsError =
    APIError "nat option" "string option" string
  | JsError string
  | NonError

definition MISSING_API_KEY :: string where
  "MISSING_API_KEY = ''Missing OpenAI API key in server configuration.''"

definition INVALID_REQUEST :: string where
  "INVALID_REQUEST = ''Invalid request format or empty message.''"

definition PROCESSING_ERROR :: string where
  "PROCESSING_ERROR = ''An error occurred while processing your request.''"

definition NO_RESPONSE :: string where
  "NO_RESPONSE = ''Unable to generate a response. Please try again.''"

definition MODEL_ERROR :: string where
  "MODEL_ERROR = ''The language model is currently unavailable. Please try again later.''"

definition RATE_LIMIT :: string where
  "RATE_LIMIT = ''Rate limit exceeded. Please try again in a moment.''"

definition INVALID_API_KEY :: string where
  "INVALID_API_KEY = ''Invalid API key. Please check your OpenAI API key configuration.''"

definition CONTENT_POLICY :: string where
  "CONTENT_POLICY = ''Your request could not be processed due to content policy restrictions.''"

text \<open>\<open>RETRY_OPTIONS\<close>: the retry bound and the two delays, in milliseconds.\<close>

definition maxRetries :: nat where "maxRetries = 3"
definition initialDelay :: nat where "initialDelay = 1000"
definition maxDelay :: nat where "maxDelay = 5000"

text \<open>
  The three checks on an \<open>APIError\<close> inside the \<open>catch\<close> of \<open>retryWithBackoff\<close>, in the
  source's order: the error thrown instead of retrying, or \<open>None\<close> when the wrapper goes on
  to wait and retry.
\<close>

fun failFast :: "jsError \<Rightarrow> jsError option" where
  "failFast (APIError status code msg) =
     (if status = Some 401 then Some (JsError INVALID_API_KEY)
      else if status = Some 429 then Some (JsError RATE_LIMIT)
      else if code = Some ''content_policy_violation'' then Some (JsError CONTENT_POLICY)
      else None)"
| "failFast (JsError msg) = None"
| "failFast NonError = None"

definition backoffDelay :: "nat \<Rightarrow> nat" where
  "backoffDelay retryCount = min (initialDelay * 2 ^ retryCount) maxDelay"

text \<open>
  What one run of the wrapper does: the value or error it settles with, the delays it
  waited (in order) and the number of times it invoked the operation.
\<close>

record 'a retryRun =
  outcome :: "jsError + 'a"
  waits :: "nat list"
  invocations :: nat

text \<open>
  The wrapped operation is an effectful thunk: it is modelled by the outcomes of its
  successive invocations, \<open>operation 0\<close> being the next one. After an invocation the rest
  of the operation is \<open>\<lambda>n. operation (Suc n)\<close>.
\<close>

function retryWithBackoff :: "(nat \<Rightarrow> jsError + 'a) \<Rightarrow> nat \<Rightarrow> 'a retryRun" where
  "retryWithBackoff operation retryCount =
     (case operation 0 of
        Inr v \<Rightarrow> \<lparr>outcome = Inr v, waits = [], invocations = 1\<rparr>
      | Inl error \<Rightarrow>
          if retryCount \<ge> maxRetries then \<lparr>outcome = Inl error, waits = [], invocations = 1\<rparr>
          else (case failFast error of
                  Some mapped \<Rightarrow> \<lparr>outcome = Inl mapped, waits = [], invocations = 1\<rparr>
                | None \<Rightarrow>
                    let delay = backoffDelay retryCount;
                        rest = retryWithBackoff (\<lambda>n. operation (Suc n)) (retryCount + 1)
                    in \<lparr>outcome = outcome rest, waits = delay # waits rest,
                        invocations = Suc (invocations rest)\<rparr>))"
  by pat_completeness auto
termination
  by (relation "measure (\<lambda>(operation, retryCount). maxRetries - retryCount)") auto


section \<open>Strings and regular expressions\<close>

text \<open>
  A JavaScript string is a sequence of UTF-16 code units. The model's \<open>string\<close> is a list
  of 8-bit characters: it stands for the strings all of whose code units are below 256,
  \<open>of_char c\<close> being the code unit. The platform functions below are written for that
  range.
\<close>

definition isWordChar :: "char \<Rightarrow> bool" where
  \<comment> \<open>the class \<open>\w\<close>: ASCII letters, digits and the underscore\<close>
  "isWordChar c =
     (let n = (of_char c :: nat)
      in (48 \<le> n \<and> n \<le> 57) \<or> (65 \<le> n \<and> n \<le> 90) \<or> n = 95 \<or> (97 \<le> n \<and> n \<le> 122))"

definition isLineTerminator :: "char \<Rightarrow> bool" where
  \<comment> \<open>the characters \<open>.\<close> does not match: line feed and carriage return\<close>
  "isLineTerminator c = ((of_char c :: nat) = 10 \<or> (of_char c :: nat) = 13)"

definition isWhiteSpace :: "char \<Rightarrow> bool" where
  \<comment> \<open>what \<open>trim\<close> strips and \<open>\s\<close> matches: tab, LF, VT, FF, CR, space, no-break space\<close>
  "isWhiteSpace c =
     (let n = (of_char c :: nat) in (9 \<le> n \<and> n \<le> 13) \<or> n = 32 \<or> n = 160)"

definition trim :: "string \<Rightarrow> string" where
  "trim s = rev (dropWhile isWhiteSpace (rev (dropWhile isWhiteSpace s)))"

definition lowerChar :: "char \<Rightarrow> char" where
  "lowerChar c =
     (let n = (of_char c :: nat)
      in if (65 \<le> n \<and> n \<le> 90) \<or> (192 \<le> n \<and> n \<le> 222 \<and> n \<noteq> 215)
         then char_of (n + 32) else c)"

definition toLowerCase :: "string \<Rightarrow> string" where
  "toLowerCase s = map lowerChar s"

definition canonicalize :: "char \<Rightarrow> nat" where
  \<comment> \<open>the case folding of a regular expression with the \<open>i\<close> flag (and no \<open>u\<close> flag):
      the code unit of the upper-case form, when that is a single code unit\<close>
  "canonicalize c =
     (let n = (of_char c :: nat)
      in if 97 \<le> n \<and> n \<le> 122 then n - 32
         else if n = 181 then 924
         else if 224 \<le> n \<and> n \<le> 254 \<and> n \<noteq> 247 then n - 32
         else if n = 255 then 376
         else n)"

text \<open>
  The regular expressions of the source use literals, alternation, sequencing, the word
  boundary \<open>\b\<close>, the anchor \<open>^\<close>, and \<open>.+\<close> in its greedy and lazy forms; all carry the
  \<open>i\<close> flag and none the \<open>g\<close>, \<open>m\<close>, \<open>s\<close> or \<open>u\<close> flag.
\<close>

datatype regex =
    Lit string
  | Alt "regex list"
  | Seq "regex list"
  | WordBoundary
  | LineStart
  | AnyPlus
  | AnyPlusLazy

fun litAt :: "string \<Rightarrow> string \<Rightarrow> bool" where
  "litAt [] s = True"
| "litAt (p # ps) [] = False"
| "litAt (p # ps) (c # cs) = (canonicalize p = canonicalize c \<and> litAt ps cs)"

definition dotRun :: "string \<Rightarrow> nat" where
  \<comment> \<open>how many characters \<open>.\<close> can consume from the front of the string\<close>
  "dotRun s = length (takeWhile (\<lambda>c. \<not> isLineTerminator c) s)"

definition wordBefore :: "string \<Rightarrow> nat \<Rightarrow> bool" where
  "wordBefore s i = (0 < i \<and> i - 1 < length s \<and> isWordChar (s ! (i - 1)))"

definition wordAt :: "string \<Rightarrow> nat \<Rightarrow> bool" where
  "wordAt s i = (i < length s \<and> isWordChar (s ! i))"

text \<open>
  The backtracking matcher: \<open>regexEnds r s i\<close> lists the positions at which a match of
  \<open>r\<close> that starts at position \<open>i\<close> of \<open>s\<close> can end, in the order in which backtracking
  tries them (earlier alternative first, greedy \<open>.+\<close> longest first, lazy \<open>.+?\<close> shortest
  first).
\<close>

fun regexEnds :: "regex \<Rightarrow> string \<Rightarrow> nat \<Rightarrow> nat list" where
  "regexEnds (Lit w) s i = (if litAt w (drop i s) then [i + length w] else [])"
| "regexEnds (Alt rs) s i = concat (map (\<lambda>r. regexEnds r s i) rs)"
| "regexEnds (Seq []) s i = [i]"
| "regexEnds (Seq (r # rs)) s i = concat (map (regexEnds (Seq rs) s) (regexEnds r s i))"
| "regexEnds WordBoundary s i = (if wordBefore s i \<noteq> wordAt s i then [i] else [])"
| "regexEnds LineStart s i = (if i = 0 then [i] else [])"
| "regexEnds AnyPlus s i = rev (map (\<lambda>k. i + k) [1..<Suc (dotRun (drop i s))])"
| "regexEnds AnyPlusLazy s i = map (\<lambda>k. i + k) [1..<Suc (dotRun (drop i s))]"

text \<open>
  What it is for a regular expression to match the text between two positions of a
  string, said without the matcher. \<open>startsWith w s\<close>: the string \<open>s\<close> starts with the
  literal \<open>w\<close>, letter case ignored.
\<close>

definition startsWith :: "string \<Rightarrow> string \<Rightarrow> bool" where
  "startsWith w s =
     (length w \<le> length s \<and> map canonicalize (take (length w) s) = map canonicalize w)"

inductive matches :: "regex \<Rightarrow> string \<Rightarrow> nat \<Rightarrow> nat \<Rightarrow> bool" where
  m_lit: "startsWith w (drop i s) \<Longrightarrow> matches (Lit w) s i (i + length w)"
| m_alt: "r \<in> set rs \<Longrightarrow> matches r s i j \<Longrightarrow> matches (Alt rs) s i j"
| m_seq_nil: "matches (Seq []) s i i"
| m_seq_cons: "matches r s i k \<Longrightarrow> matches (Seq rs) s k j \<Longrightarrow> matches (Seq (r # rs)) s i j"
| m_boundary: "wordBefore s i \<noteq> wordAt s i \<Longrightarrow> matches WordBoundary s i i"
| m_start: "matches LineStart s 0 0"
| m_any: "i < j \<Longrightarrow> j \<le> length s \<Longrightarrow> (\<forall>k\<in>{i..<j}. \<not> isLineTerminator (s ! k)) \<Longrightarrow>
     matches AnyPlus s i j"
| m_any_lazy: "i < j \<Longrightarrow> j \<le> length s \<Longrightarrow> (\<forall>k\<in>{i..<j}. \<not> isLineTerminator (s ! k)) \<Longrightarrow>
     matches AnyPlusLazy s i j"

definition patternMatches :: "regex \<Rightarrow> string \<Rightarrow> bool" where
  \<comment> \<open>the pattern matches somewhere in the string\<close>
  "patternMatches r s = (\<exists>i j. i \<le> length s \<and> matches r s i j)"

definition regexTest :: "regex \<Rightarrow> string \<Rightarrow> bool" where
  \<comment> \<open>\<open>RegExp.prototype.test\<close>: is there a match starting at some position\<close>
  "regexTest r s = list_ex (\<lambda>i. regexEnds r s i \<noteq> []) [0..<Suc (length s)]"

definition regexMatch :: "regex \<Rightarrow> string \<Rightarrow> string option" where
  \<comment> \<open>element 0 of \<open>String.prototype.match\<close>: the text of the first match, or \<open>None\<close> for \<open>null\<close>\<close>
  "regexMatch r s =
     (case find (\<lambda>i. regexEnds r s i \<noteq> []) [0..<Suc (length s)] of
        None \<Rightarrow> None
      | Some i \<Rightarrow> Some (take (hd (regexEnds r s i) - i) (drop i s)))"

section \<open>The intent classifier\<close>

datatype responseType = ImageType | AudioType | TextType

definition imagePatterns :: "regex list" where
  "imagePatterns =
     [Seq [WordBoundary, Alt [Lit ''draw'', Lit ''create'', Lit ''generate'', Lit ''make''],
           WordBoundary, AnyPlus, WordBoundary,
           Alt [Lit ''picture'', Lit ''image'', Lit ''photo'', Lit ''artwork'', Lit ''visual'',
                Lit ''drawing'', Lit ''illustration''],
           WordBoundary],
      Seq [WordBoundary, Alt [Lit ''show'', Lit ''display'', Lit ''visualize''],
           WordBoundary, AnyPlus, WordBoundary, Alt [Lit ''as'', Lit ''in'', Lit ''with''],
           WordBoundary, AnyPlus, WordBoundary,
           Alt [Lit ''image'', Lit ''picture'', Lit ''photo'', Lit ''drawing''],
           WordBoundary],
      Seq [WordBoundary,
           Alt [Lit ''picture'', Lit ''image'', Lit ''photo'', Lit ''drawing'', Lit ''artwork''],
           WordBoundary, AnyPlus, WordBoundary,
           Alt [Lit ''of'', Lit ''showing'', Lit ''depicting''],
           WordBoundary]]"

definition audioPatterns :: "regex list" where
  "audioPatterns =
     [Seq [WordBoundary,
           Alt [Lit ''speak'', Lit ''say'', Lit ''pronounce'', Lit ''read'', Lit ''narrate''],
           WordBoundary, AnyPlus],
      Seq [WordBoundary, Alt [Lit ''convert'', Lit ''transform''],
           WordBoundary, AnyPlus, WordBoundary, Alt [Lit ''to'', Lit ''into''],
           WordBoundary, AnyPlus, WordBoundary,
           Alt [Lit ''speech'', Lit ''audio'', Lit ''voice''],
           WordBoundary],
      Seq [WordBoundary, Alt [Lit ''generate'', Lit ''create'', Lit ''make''],
           WordBoundary, AnyPlus, WordBoundary,
           Alt [Lit ''audio'', Lit ''speech'', Lit ''voice'', Lit ''sound''],
           WordBoundary],
      Seq [Lit ''how does'', AnyPlus, Lit ''sound'', WordBoundary],
      Seq [WordBoundary, Alt [Lit ''tell'', Lit ''read''], AnyPlus, WordBoundary,
           Alt [Lit ''me'', Lit ''us'', Lit ''out loud''],
           WordBoundary]]"

text \<open>One \<open>for\<close> loop of \<open>determineResponseType\<close>: does it reach its \<open>return\<close>.\<close>

fun somePatternTests :: "regex list \<Rightarrow> string \<Rightarrow> bool" where
  "somePatternTests [] s = False"
| "somePatternTests (pattern # rest) s =
     (if regexTest pattern s then True else somePatternTests rest s)"

definition determineResponseType :: "string \<Rightarrow> responseType" where
  "determineResponseType prompt =
     (let normalizedPrompt = toLowerCase prompt
      in if somePatternTests audioPatterns normalizedPrompt then AudioType
         else if somePatternTests imagePatterns normalizedPrompt then ImageType
         else TextType)"


section \<open>The client session manager\<close>

datatype role = User | Assistant | System

datatype mediaType = MediaImage | MediaAudio

text \<open>
  The client's \<open>Message\<close> and \<open>Chat\<close>. A \<open>Date\<close> is its time value in milliseconds. The
  client only ever builds messages with the roles \<open>User\<close> and \<open>Assistant\<close>.
\<close>

record message =
  id_m :: string
  role_m :: role
  content_m :: string
  media_m :: "(mediaType \<times> string) option"

record chat =
  id_c :: string
  title :: string
  messages :: "message list"
  createdAt :: int
  updatedAt :: int

text \<open>The state the hook keeps with \<open>useState\<close>.\<close>

record session =
  chats :: "chat list"
  currentChatId :: "string option"
  isLoading :: bool

definition initialSession :: session where
  "initialSession = \<lparr>chats = [], currentChatId = None, isLoading = False\<rparr>"

text \<open>An attached \<open>File\<close> or \<open>Blob\<close>: its size in bytes and its MIME type.\<close>

record attachment =
  fsize :: nat
  ftype :: string

text \<open>What \<open>sendMessage\<close> puts into the form it posts.\<close>

record chatRequest =
  reqMessage :: string
  reqHistory :: "(role \<times> string) list"
  reqFile :: "attachment option"

fun splitOn :: "char \<Rightarrow> string \<Rightarrow> string list" where
  "splitOn sep [] = [[]]"
| "splitOn sep (c # cs) =
     (if c = sep then [] # splitOn sep cs
      else (case splitOn sep cs of [] \<Rightarrow> [[c]] | w # ws \<Rightarrow> (c # w) # ws))"

fun joinWith :: "string \<Rightarrow> string list \<Rightarrow> string" where
  "joinWith sep [] = []"
| "joinWith sep [w] = w"
| "joinWith sep (w # ws) = w @ sep @ joinWith sep ws"

definition questionWords :: "string list" where
  "questionWords =
     [''what'', ''who'', ''how'', ''why'', ''when'', ''where'', ''can'', ''could'', ''would'',
      ''will'', ''should'', ''is'', ''are'', ''do'', ''does'', ''did'']"

definition questionPattern :: regex where
  "questionPattern = Seq [LineStart, Alt (map Lit questionWords), AnyPlusLazy, Lit ''?'']"

definition generateChatTitle :: "string \<Rightarrow> string" where
  "generateChatTitle msg =
     (if length msg < 30 then msg
      else (case regexMatch questionPattern msg of
              Some questionMatch \<Rightarrow> take 30 questionMatch @ ''...''
            | None \<Rightarrow> joinWith '' '' (take 4 (splitOn CHR '' '' msg)) @ ''...''))"

text \<open>
  \<open>createNewChat\<close>: the identifier comes from \<open>crypto.randomUUID()\<close> and the two dates from
  two calls of \<open>new Date()\<close>; they are arguments of the model. The result is the new
  identifier and the session after the two state updates.
\<close>

definition createNewChat :: "string \<Rightarrow> int \<Rightarrow> int \<Rightarrow> session \<Rightarrow> string \<times> session" where
  "createNewChat newId created updated s =
     (let newChat = \<lparr>id_c = newId, title = ''New Chat'', messages = [],
                     createdAt = created, updatedAt = updated\<rparr>
      in (newId, s\<lparr>chats := newChat # chats s, currentChatId := Some newId\<rparr>))"


text \<open>
  \<open>Array.prototype.sort\<close> with the comparator \<open>b.updatedAt - a.updatedAt\<close>: a stable sort,
  here by insertion.
\<close>

definition compareChats :: "chat \<Rightarrow> chat \<Rightarrow> int" where
  "compareChats a b = updatedAt b - updatedAt a"

fun insertChat :: "chat \<Rightarrow> chat list \<Rightarrow> chat list" where
  "insertChat c [] = [c]"
| "insertChat c (d # ds) = (if compareChats c d \<le> 0 then c # d # ds else d # insertChat c ds)"

definition sortChats :: "chat list \<Rightarrow> chat list" where
  "sortChats cs = foldr insertChat cs []"

text \<open>
  The values one call of \<open>sendMessage\<close> draws from its environment: the identifier and
  dates of a chat it may create, the identifier of the user message, the object URL of
  the attachment, and the date read inside the state update.
\<close>

record sendEnv =
  newChatId :: string
  newChatCreated :: int
  newChatUpdated :: int
  newMessageId :: string
  objectUrl :: string
  sentAt :: int

text \<open>
  What the synchronous part of \<open>sendMessage\<close> (up to the \<open>fetch\<close>) leaves behind: the
  session, the notice shown, the request posted (\<open>None\<close> when it returned before the
  \<open>fetch\<close>) and the chat the reply will go to.
\<close>

record sendRun =
  after :: session
  toast :: "string option"
  posted :: "chatRequest option"
  target :: string

definition MAX_FILE_SIZE :: nat where
  "MAX_FILE_SIZE = 10 * 1024 * 1024"

definition withUserMessage :: "string \<Rightarrow> message \<Rightarrow> string \<Rightarrow> int \<Rightarrow> chat \<Rightarrow> chat" where
  \<comment> \<open>the callback of \<open>prev.map\<close> in the first \<open>setChats\<close> updater of \<open>sendMessage\<close>\<close>
  "withUserMessage chatId newMessage msg now c =
     (if id_c c = chatId
      then c\<lparr>messages := messages c @ [newMessage],
             title := (if length (messages c) = 0 then generateChatTitle msg else title c),
             updatedAt := now\<rparr>
      else c)"

definition appendUserMessage :: "string \<Rightarrow> message \<Rightarrow> string \<Rightarrow> int \<Rightarrow> chat list \<Rightarrow> chat list" where
  \<comment> \<open>the first \<open>setChats\<close> updater of \<open>sendMessage\<close>\<close>
  "appendUserMessage chatId newMessage msg now prev =
     sortChats (map (withUserMessage chatId newMessage msg now) prev)"

text \<open>
  \<open>sendMessage\<close> runs with the \<open>chats\<close> and \<open>currentChatId\<close> of the render that created it:
  the session \<open>s\<close> it is given. \<open>createNewChat\<close> queues its state updates, so the chat it
  creates is in the session afterwards but not in the \<open>chats\<close> the lookup
  \<open>chats.find\<close> reads. An empty identifier is falsy, like \<open>null\<close>.
\<close>

definition sendMessage :: "sendEnv \<Rightarrow> session \<Rightarrow> string \<Rightarrow> attachment option \<Rightarrow> sendRun" where
  "sendMessage env s msg file =
     (if trim msg = [] \<and> file = None
      then \<lparr>after = s, toast = Some ''Please enter a message or upload a file'',
            posted = None, target = []\<rparr>
      else
        let (chatId, s1) =
              (case currentChatId s of
                 Some i \<Rightarrow> if i \<noteq> [] then (i, s)
                           else createNewChat (newChatId env) (newChatCreated env) (newChatUpdated env) s
               | None \<Rightarrow> createNewChat (newChatId env) (newChatCreated env) (newChatUpdated env) s)
        in (case find (\<lambda>c. id_c c = chatId) (chats s) of
              None \<Rightarrow> \<lparr>after = s1, toast = None, posted = None, target = chatId\<rparr>
            | Some found \<Rightarrow>
                let history = map (\<lambda>m. (role_m m, content_m m)) (messages found)
                in if (case file of Some f \<Rightarrow> fsize f > MAX_FILE_SIZE | None \<Rightarrow> False)
                   then \<lparr>after = s1, toast = Some ''File size exceeds 10MB limit'',
                         posted = None, target = chatId\<rparr>
                   else
                     let newMessage =
                           \<lparr>id_m = newMessageId env, role_m = User, content_m = msg,
                            media_m = (case file of
                                         None \<Rightarrow> None
                                       | Some f \<Rightarrow>
                                           Some (if take 6 (ftype f) = ''image/'' then MediaImage
                                                 else MediaAudio, objectUrl env))\<rparr>
                     in \<lparr>after = s1\<lparr>chats := appendUserMessage chatId newMessage msg (sentAt env)
                                                 (chats s1),
                                      isLoading := True\<rparr>,
                         toast = None,
                         posted = Some \<lparr>reqMessage = msg, reqHistory = history, reqFile = file\<rparr>,
                         target = chatId\<rparr>))"


definition withAssistantMessage ::
  "string \<Rightarrow> string \<Rightarrow> string \<Rightarrow> string \<Rightarrow> string \<Rightarrow> int \<Rightarrow> chat \<Rightarrow> chat" where
  \<comment> \<open>the callback of \<open>prev.map\<close> in the second \<open>setChats\<close> updater of \<open>sendMessage\<close>\<close>
  "withAssistantMessage chatId newId dataType dataContent dataUrl now c =
     (if id_c c = chatId
      then c\<lparr>messages := messages c @
               [\<lparr>id_m = newId, role_m = Assistant, content_m = dataContent,
                 media_m = (if dataType = ''image'' then Some (MediaImage, dataUrl)
                            else if dataType = ''audio'' then Some (MediaAudio, dataUrl)
                            else None)\<rparr>],
             updatedAt := now\<rparr>
      else c)"


definition errorMessage :: "jsError \<Rightarrow> string option" where
  \<comment> \<open>\<open>error.message\<close> when the value is an \<open>Error\<close>\<close>
  "errorMessage e = (case e of APIError st cd m \<Rightarrow> Some m | JsError m \<Rightarrow> Some m | NonError \<Rightarrow> None)"




text \<open>
  The title's question prefix, said without the matcher: the prefix of length \<open>n\<close> of
  the message is a question word (in either case), then one or more characters other
  than line terminators, then a question mark; \<open>questionPrefix\<close> is the shortest such
  prefix.
\<close>

definition questionEnd :: "string \<Rightarrow> nat \<Rightarrow> bool" where
  "questionEnd msg n =
     (n \<le> length msg \<and>
      (\<exists>w\<in>set questionWords.
         startsWith w msg \<and> length w + 2 \<le> n \<and> msg ! (n - 1) = CHR ''?'' \<and>
         (\<forall>i\<in>{length w..<n - 1}. \<not> isLineTerminator (msg ! i))))"

definition questionPrefix :: "string \<Rightarrow> string option" where
  "questionPrefix msg =
     (case find (questionEnd msg) [0..<Suc (length msg)] of
        None \<Rightarrow> None
      | Some n \<Rightarrow> Some (take n msg))"

section \<open>The request dispatcher\<close>

text \<open>
  A value of \<open>JSON.parse\<close>. The code looks at a number only through its truth value and
  through \<open>String\<close>, so \<open>JNumber z txt\<close> is a number by what these give: \<open>z\<close> says whether
  it is zero, \<open>txt\<close> is what \<open>String\<close> writes for it. An object is the list of its
  properties, a later one overriding an earlier one of the same name.
\<close>

datatype json =
    JNull
  | JBool bool
  | JNumber bool string
  | JString string
  | JArray "json list"
  | JObject "(string \<times> json) list"

fun truthy :: "json \<Rightarrow> bool" where
  "truthy JNull = False"
| "truthy (JBool b) = b"
| "truthy (JNumber z txt) = (\<not> z)"
| "truthy (JString s) = (s \<noteq> [])"
| "truthy (JArray xs) = True"
| "truthy (JObject kvs) = True"

text \<open>
  \<open>String(v)\<close>, or \<open>None\<close> when it throws a \<open>TypeError\<close>. A parsed object has no callable
  property of its own: when it has a property \<open>toString\<close>, that one hides the inherited
  method, the inherited \<open>valueOf\<close> (or an own, uncallable one) yields no primitive, and
  the conversion throws. An array is joined with commas, \<open>null\<close> written as the empty
  string, and throws when the conversion of an element does.
\<close>

fun jsString :: "json \<Rightarrow> string option" where
  "jsString JNull = Some ''null''"
| "jsString (JBool b) = Some (if b then ''true'' else ''false'')"
| "jsString (JNumber z txt) = Some txt"
| "jsString (JString s) = Some s"
| "jsString (JArray xs) =
     (case those (map (\<lambda>x. case x of JNull \<Rightarrow> Some [] | _ \<Rightarrow> jsString x) xs) of
        None \<Rightarrow> None
      | Some ws \<Rightarrow> Some (joinWith '','' ws))"
| "jsString (JObject kvs) =
     (if ''toString'' \<in> fst ` set kvs then None else Some ''[object Object]'')"

definition property :: "json \<Rightarrow> string \<Rightarrow> json option" where
  \<comment> \<open>\<open>msg.role\<close> and \<open>msg.content\<close>: \<open>None\<close> is \<open>undefined\<close>; an array has neither property\<close>
  "property v k = (case v of JObject kvs \<Rightarrow> map_of (rev kvs) k | _ \<Rightarrow> None)"

record apiMessage =
  role :: role
  content :: string

definition isObject :: "json \<Rightarrow> bool" where
  \<comment> \<open>\<open>msg && typeof msg === 'object'\<close>\<close>
  "isObject v = (case v of JArray xs \<Rightarrow> True | JObject kvs \<Rightarrow> True | _ \<Rightarrow> False)"

definition toApiMessage :: "json \<Rightarrow> apiMessage option" where
  \<comment> \<open>the callback of \<open>map\<close>; \<open>None\<close> when \<open>String(msg.content || '')\<close> throws\<close>
  "toApiMessage v =
     (case (case property v ''content'' of
              None \<Rightarrow> Some []
            | Some c \<Rightarrow> if truthy c then jsString c else Some []) of
        None \<Rightarrow> None
      | Some text \<Rightarrow>
          Some \<lparr>role = (if property v ''role'' = Some (JString ''user'') then User
                        else if property v ''role'' = Some (JString ''assistant'') then Assistant
                        else User),
                content = text\<rparr>)"

text \<open>
  An entry of the submitted form: a file or a string. \<open>JSON.parse\<close> is the platform's
  parser: the \<open>history\<close> entry carries, beside its string, what \<open>JSON.parse\<close> makes of it,
  \<open>None\<close> when it throws a \<open>SyntaxError\<close>. The \<open>catch\<close> around the parsing also catches
  what the conversion of an entry throws, before \<open>history\<close> is assigned: the history is
  then empty.
\<close>

datatype formEntry = FileEntry | StringEntry string

datatype historyEntry = HistoryFile | HistoryString string "json option"

record formFields =
  messageField :: "formEntry option"
  historyField :: "historyEntry option"

definition parseHistory :: "historyEntry option \<Rightarrow> apiMessage list" where
  "parseHistory historyJson =
     (case historyJson of
        Some (HistoryString text parsed) \<Rightarrow>
          if text \<noteq> [] then
            (case parsed of
               Some (JArray parsedHistory) \<Rightarrow>
                 (case those (map toApiMessage (filter isObject parsedHistory)) of
                    None \<Rightarrow> []
                  | Some converted \<Rightarrow> converted)
             | Some _ \<Rightarrow> []
             | None \<Rightarrow> [])
          else []
      | _ \<Rightarrow> [])"

text \<open>
  The provider, as the endpoint sees it: what each of its three calls does on the
  \<open>n\<close>-th attempt of a request, given the payload. A completion throws or yields
  \<open>choices[0]?.message?.content\<close>; an image call throws or yields \<open>data[0]?.b64_json\<close>; a
  speech call throws or yields the audio, in base 64.
\<close>

record provider =
  chatCompletion :: "nat \<Rightarrow> apiMessage list \<Rightarrow> jsError + string option"
  imagesGenerate :: "nat \<Rightarrow> string \<Rightarrow> jsError + string option"
  speechCreate :: "nat \<Rightarrow> string \<Rightarrow> jsError + string"

definition sanitizePrompt :: "string \<Rightarrow> string" where
  "sanitizePrompt prompt =
     trim (filter (\<lambda>c. isWordChar c \<or> isWhiteSpace c \<or> c \<in> set ''.,!?'' \<or> c = CHR 0x27
                        \<or> c = CHR ''-'') prompt)"

definition textSystemPrompt :: string where
  "textSystemPrompt = ''You are a helpful assistant. Maintain context from the conversation history and provide relevant responses based on the entire discussion.''"

definition speechSystemPrompt :: string where
  "speechSystemPrompt = ''Generate a natural, conversational response that maintains context from the entire conversation history. Keep it concise and engaging.''"

definition generateText :: "provider \<Rightarrow> nat \<Rightarrow> apiMessage list \<Rightarrow> jsError + string" where
  "generateText pv n msgs =
     (case chatCompletion pv n (\<lparr>role = System, content = textSystemPrompt\<rparr> # msgs) of
        Inl e \<Rightarrow> Inl e
      | Inr None \<Rightarrow> Inl (JsError NO_RESPONSE)
      | Inr (Some c) \<Rightarrow> if c = [] then Inl (JsError NO_RESPONSE) else Inr c)"

definition generateImage :: "provider \<Rightarrow> nat \<Rightarrow> string \<Rightarrow> jsError + string" where
  "generateImage pv n prompt =
     (case imagesGenerate pv n (''Create a safe, appropriate image of: '' @ sanitizePrompt prompt) of
        Inl (APIError st cd m) \<Rightarrow>
          if cd = Some ''content_policy_violation'' then Inl (JsError CONTENT_POLICY)
          else Inl (APIError st cd m)
      | Inl e \<Rightarrow> Inl e
      | Inr None \<Rightarrow> Inl (JsError NO_RESPONSE)
      | Inr (Some b) \<Rightarrow> if b = [] then Inl (JsError NO_RESPONSE)
                        else Inr (''data:image/png;base64,'' @ b))"

definition generateSpeech :: "provider \<Rightarrow> nat \<Rightarrow> apiMessage list \<Rightarrow> jsError + string \<times> string" where
  \<comment> \<open>the result is the pair of \<open>url\<close> and \<open>text\<close>\<close>
  "generateSpeech pv n msgs =
     (case chatCompletion pv n (\<lparr>role = System, content = speechSystemPrompt\<rparr> # msgs) of
        Inl e \<Rightarrow> Inl e
      | Inr None \<Rightarrow> Inl (JsError NO_RESPONSE)
      | Inr (Some speechText) \<Rightarrow>
          if speechText = [] then Inl (JsError NO_RESPONSE)
          else (let cleanText = sanitizePrompt speechText
                in case speechCreate pv n cleanText of
                     Inl e \<Rightarrow> Inl e
                   | Inr b \<Rightarrow> Inr (''data:audio/mp3;base64,'' @ b, cleanText)))"

text \<open>
  The response: its status and its JSON body. \<open>StatusRangeError\<close> is the body whose
  \<open>error\<close> is the message of the \<open>RangeError\<close> that \<open>NextResponse.json\<close> throws for a
  status outside 200 to 599; the text of that message is the platform's.
\<close>

datatype responseBody =
    ErrorBody string
  | StatusRangeError
  | Generated responseType string "string option"

record httpResponse =
  status :: nat
  body :: responseBody

text \<open>
  What handling one request does: the response, the routine it dispatched to (\<open>None\<close>
  when it answered before the dispatch) and how many times the routine was invoked.
\<close>

record postRun =
  response :: httpResponse
  dispatched :: "responseType option"
  generationCalls :: nat

definition generationFailure :: "jsError \<Rightarrow> httpResponse" where
  \<comment> \<open>the inner \<open>catch\<close> of \<open>POST\<close>; when \<open>NextResponse.json\<close> throws there, the outer
      \<open>catch\<close> answers with status 500 and the message of what was thrown\<close>
  "generationFailure e =
     (case e of
        APIError st cd m \<Rightarrow>
          if cd = Some ''content_policy_violation''
          then \<lparr>status = 400, body = ErrorBody CONTENT_POLICY\<rparr>
          else
            let code = (case st of None \<Rightarrow> 500 | Some n \<Rightarrow> if n = 0 then 500 else n)
            in if 200 \<le> code \<and> code \<le> 599
               then \<lparr>status = code,
                     body = ErrorBody (if st = Some 429 then RATE_LIMIT
                                       else if st = Some 401 then INVALID_API_KEY
                                       else MODEL_ERROR)\<rparr>
               else \<lparr>status = 500, body = StatusRangeError\<rparr>
      | JsError m \<Rightarrow> \<lparr>status = 500, body = ErrorBody m\<rparr>
      | NonError \<Rightarrow> \<lparr>status = 500, body = ErrorBody PROCESSING_ERROR\<rparr>)"

definition finish :: "responseType \<Rightarrow> string \<Rightarrow> string option \<Rightarrow> httpResponse" where
  \<comment> \<open>the check \<open>!response?.content\<close> and the response with status 200\<close>
  "finish ty c u =
     (if c = [] then \<lparr>status = 500, body = ErrorBody NO_RESPONSE\<rparr>
      else \<lparr>status = 200, body = Generated ty c u\<rparr>)"

text \<open>
  \<open>POST\<close>, given \<open>process.env.OPENAI_API_KEY\<close>, the outcome of \<open>req.formData()\<close> (which
  throws when the body is not a form) and the provider.
\<close>

definition POST :: "string option \<Rightarrow> jsError + formFields \<Rightarrow> provider \<Rightarrow> postRun" where
  "POST apiKey formData pv =
     (if apiKey = None \<or> apiKey = Some []
      then \<lparr>response = \<lparr>status = 500, body = ErrorBody MISSING_API_KEY\<rparr>,
            dispatched = None, generationCalls = 0\<rparr>
      else
        (case formData of
           Inl e \<Rightarrow>
             \<lparr>response = \<lparr>status = 500,
                           body = ErrorBody (case errorMessage e of Some m \<Rightarrow> m
                                             | None \<Rightarrow> PROCESSING_ERROR)\<rparr>,
              dispatched = None, generationCalls = 0\<rparr>
         | Inr form \<Rightarrow>
             (case messageField form of
                Some (StringEntry msg) \<Rightarrow>
                  if msg = [] \<or> trim msg = []
                  then \<lparr>response = \<lparr>status = 400, body = ErrorBody INVALID_REQUEST\<rparr>,
                        dispatched = None, generationCalls = 0\<rparr>
                  else
                    let history = parseHistory (historyField form);
                        messageText = trim msg;
                        responseType = determineResponseType messageText;
                        history' = history @ [\<lparr>role = User, content = messageText\<rparr>]
                    in (case responseType of
                          ImageType \<Rightarrow>
                            let run = retryWithBackoff (\<lambda>n. generateImage pv n messageText) 0
                            in \<lparr>response =
                                  (case outcome run of
                                     Inr imageUrl \<Rightarrow>
                                       finish ImageType ''Here's the image you requested:'' (Some imageUrl)
                                   | Inl e \<Rightarrow> generationFailure e),
                                dispatched = Some ImageType, generationCalls = invocations run\<rparr>
                        | AudioType \<Rightarrow>
                            let run = retryWithBackoff (\<lambda>n. generateSpeech pv n history') 0
                            in \<lparr>response =
                                  (case outcome run of
                                     Inr audioResult \<Rightarrow>
                                       finish AudioType ''Generated speech response:'' (Some (fst audioResult))
                                   | Inl e \<Rightarrow> generationFailure e),
                                dispatched = Some AudioType, generationCalls = invocations run\<rparr>
                        | TextType \<Rightarrow>
                            let run = retryWithBackoff (\<lambda>n. generateText pv n history') 0
                            in \<lparr>response =
                                  (case outcome run of
                                     Inr textResponse \<Rightarrow> finish TextType textResponse None
                                   | Inl e \<Rightarrow> generationFailure e),
                                dispatched = Some TextType, generationCalls = invocations run\<rparr>)
              | _ \<Rightarrow> \<lparr>response = \<lparr>status = 400, body = ErrorBody INVALID_REQUEST\<rparr>,
                       dispatched = None, generationCalls = 0\<rparr>)))"


section \<open>Properties of the retry wrapper\<close>

declare retryWithBackoff.simps [simp del]

lemma retry_success:
  "operation 0 = Inr v \<Longrightarrow>
   retryWithBackoff operation retryCount = \<lparr>outcome = Inr v, waits = [], invocations = 1\<rparr>"
  by (subst retryWithBackoff.simps) simp

lemma retry_exhausted:
  "operation 0 = Inl e \<Longrightarrow> maxRetries \<le> retryCount \<Longrightarrow>
   retryWithBackoff operation retryCount = \<lparr>outcome = Inl e, waits = [], invocations = 1\<rparr>"
  by (subst retryWithBackoff.simps) simp

lemma retry_abort:
  "operation 0 = Inl e \<Longrightarrow> retryCount < maxRetries \<Longrightarrow> failFast e = Some mapped \<Longrightarrow>
   retryWithBackoff operation retryCount = \<lparr>outcome = Inl mapped, waits = [], invocations = 1\<rparr>"
  by (subst retryWithBackoff.simps) simp

lemma retry_again:
  "operation 0 = Inl e \<Longrightarrow> retryCount < maxRetries \<Longrightarrow> failFast e = None \<Longrightarrow>
   retryWithBackoff operation retryCount =
     (let rest = retryWithBackoff (\<lambda>n. operation (Suc n)) (Suc retryCount)
      in \<lparr>outcome = outcome rest, waits = backoffDelay retryCount # waits rest,
          invocations = Suc (invocations rest)\<rparr>)"
  by (subst retryWithBackoff.simps) (simp add: Let_def)

text \<open>
  A run that starts with \<open>k\<close> failures the wrapper retries (no more than its budget
  allows) waits \<open>k\<close> times and goes on as the wrapper does on the rest of the operation.
\<close>

lemma retry_chain:
  "retryCount + k \<le> maxRetries \<Longrightarrow>
   (\<forall>i<k. \<exists>e. operation i = Inl e \<and> failFast e = None) \<Longrightarrow>
   retryWithBackoff operation retryCount =
     (let rest = retryWithBackoff (\<lambda>n. operation (n + k)) (retryCount + k)
      in \<lparr>outcome = outcome rest,
          waits = map backoffDelay [retryCount..<retryCount + k] @ waits rest,
          invocations = k + invocations rest\<rparr>)"
proof (induction k arbitrary: operation retryCount)
  case 0
  then show ?case by (simp add: Let_def)
next
  case (Suc k)
  from Suc.prems(2) obtain e where e: "operation 0 = Inl e" "failFast e = None"
    by auto
  have lt: "retryCount < maxRetries" using Suc.prems(1) by simp
  have tl: "\<forall>i<k. \<exists>e. (\<lambda>n. operation (Suc n)) i = Inl e \<and> failFast e = None"
    using Suc.prems(2) by auto
  have bound: "Suc retryCount + k \<le> maxRetries" using Suc.prems(1) by simp
  show ?case
    using retry_again [of operation e retryCount] e lt Suc.IH [OF bound tl]
    by (simp add: Let_def upt_rec [of retryCount])
qed

lemma retry_invocations_bound:
  "invocations (retryWithBackoff operation retryCount) \<le> Suc (maxRetries - retryCount)"
proof (induction operation retryCount rule: retryWithBackoff.induct)
  case (1 operation retryCount)
  show ?case
  proof (cases "operation 0")
    case (Inr v)
    then show ?thesis by (simp add: retry_success)
  next
    case (Inl e)
    show ?thesis
    proof (cases "maxRetries \<le> retryCount")
      case True
      then show ?thesis using Inl by (simp add: retry_exhausted)
    next
      case False
      then have lt: "retryCount < maxRetries" by simp
      show ?thesis
      proof (cases "failFast e")
        case (Some m)
        then show ?thesis using Inl lt by (simp add: retry_abort)
      next
        case None
        have "invocations (retryWithBackoff (\<lambda>n. operation (Suc n)) (retryCount + 1))
              \<le> Suc (maxRetries - (retryCount + 1))"
          using "1.IH" [OF Inl False None] by simp
        then show ?thesis
          using lt retry_again [of operation e retryCount] Inl None by (simp add: Let_def)
      qed
    qed
  qed
qed

lemma backoff_delays: "map backoffDelay [0..<3] = [1000, 2000, 4000]"
  by (simp add: backoffDelay_def initialDelay_def maxDelay_def upt_rec numeral_3_eq_3)

text \<open>
  Claim C2. An operation that fails with errors the wrapper retries on its first \<open>k\<close>
  attempts (\<open>k \<le> 3\<close>) and succeeds on the next one yields that success, after exactly \<open>k\<close>
  waits, the wait before retry \<open>n\<close> (counted from 0) being \<open>min (1000 * 2^n) 5000\<close>
  milliseconds, and after \<open>k + 1\<close> invocations. An operation that fails on all four
  attempts ends with the error of the fourth, after the waits 1000, 2000 and 4000 and
  four invocations. No run invokes the operation a fifth time.
\<close>

theorem retry_backoff_schedule:
  "(k \<le> 3 \<and> (\<forall>i<k. \<exists>e. operation i = Inl e \<and> failFast e = None) \<and> operation k = Inr v
      \<longrightarrow> retryWithBackoff operation 0 =
            \<lparr>outcome = Inr v, waits = map (\<lambda>n. min (1000 * 2 ^ n) 5000) [0..<k],
             invocations = Suc k\<rparr>)
   \<and> ((\<forall>i<3. \<exists>e. operation i = Inl e \<and> failFast e = None) \<and> operation 3 = Inl e4
      \<longrightarrow> retryWithBackoff operation 0 =
            \<lparr>outcome = Inl e4, waits = [1000, 2000, 4000], invocations = 4\<rparr>)
   \<and> invocations (retryWithBackoff operation 0) \<le> 4"
proof (intro conjI impI)
  assume a: "k \<le> 3 \<and> (\<forall>i<k. \<exists>e. operation i = Inl e \<and> failFast e = None) \<and> operation k = Inr v"
  then have b: "0 + k \<le> maxRetries" by (simp add: maxRetries_def)
  have d: "map backoffDelay [0..<k] = map (\<lambda>n. min (1000 * 2 ^ n) 5000) [0..<k]"
    by (simp add: backoffDelay_def initialDelay_def maxDelay_def)
  from a show "retryWithBackoff operation 0 =
      \<lparr>outcome = Inr v, waits = map (\<lambda>n. min (1000 * 2 ^ n) 5000) [0..<k], invocations = Suc k\<rparr>"
    using retry_chain [OF b, of operation] d
    by (simp add: Let_def retry_success)
next
  assume a: "(\<forall>i<3. \<exists>e. operation i = Inl e \<and> failFast e = None) \<and> operation 3 = Inl e4"
  have b: "0 + 3 \<le> maxRetries" by (simp add: maxRetries_def)
  from a show "retryWithBackoff operation 0 =
      \<lparr>outcome = Inl e4, waits = [1000, 2000, 4000], invocations = 4\<rparr>"
    using retry_chain [OF b, of operation] backoff_delays
    by (simp add: Let_def retry_exhausted maxRetries_def)
next
  show "invocations (retryWithBackoff operation 0) \<le> 4"
    using retry_invocations_bound [of operation 0] by (simp add: maxRetries_def)
qed

theorem retry_backoff_schedule_witness:
  "retryWithBackoff (\<lambda>n. if n < 2 then Inl (JsError ''timeout'') else Inr (7::nat)) 0 =
     \<lparr>outcome = Inr 7, waits = [1000, 2000], invocations = 3\<rparr>
   \<and> retryWithBackoff (\<lambda>n. (Inl (APIError (Some (500 + n)) None ''server error'') :: jsError + nat)) 0 =
     \<lparr>outcome = Inl (APIError (Some 503) None ''server error''), waits = [1000, 2000, 4000],
      invocations = 4\<rparr>"
  using retry_backoff_schedule [of 2 "\<lambda>n. if n < 2 then Inl (JsError ''timeout'') else Inr (7::nat)" 7]
    retry_backoff_schedule [of _ "\<lambda>n. (Inl (APIError (Some (500 + n)) None ''server error'') :: jsError + nat)" _
       "APIError (Some 503) None ''server error''"]
  by (simp add: upt_rec numeral_2_eq_2)

lemma failFast_mapped:
  "st = Some 401 \<or> st = Some 429 \<or> cd = Some ''content_policy_violation'' \<Longrightarrow>
   failFast (APIError st cd m) =
     Some (JsError (if st = Some 401 then INVALID_API_KEY
                    else if st = Some 429 then RATE_LIMIT else CONTENT_POLICY))"
  by auto

text \<open>
  Claim C3, as stated, at a concrete input: an operation that fails three times with a
  status 500 and then with a status 401. The wrapper ends with the provider's own error,
  not with the invalid-credentials error.
\<close>

theorem retry_fail_fast_counterexample:
  "retryWithBackoff
     (\<lambda>n. if n < 3 then Inl (APIError (Some 500) None ''unavailable'')
           else (Inl (APIError (Some 401) None ''unauthorized'') :: jsError + string)) 0 =
     \<lparr>outcome = Inl (APIError (Some 401) None ''unauthorized''),
      waits = [1000, 2000, 4000], invocations = 4\<rparr>
   \<and> APIError (Some 401) None ''unauthorized'' \<noteq> JsError INVALID_API_KEY"
proof -
  let ?op = "\<lambda>n. if n < 3 then Inl (APIError (Some 500) None ''unavailable'')
           else (Inl (APIError (Some 401) None ''unauthorized'') :: jsError + string)"
  have b: "0 + 3 \<le> maxRetries" by (simp add: maxRetries_def)
  have f: "\<forall>i<3. \<exists>e. ?op i = Inl e \<and> failFast e = None" by simp
  show ?thesis
    using retry_chain [OF b f] backoff_delays
    by (simp add: Let_def retry_exhausted maxRetries_def)
qed

text \<open>
  Claim C3, amended. When the operation fails on one of its first three attempts (after
  failures the wrapper retried) with a provider error of status 401, of status 429 or of
  code \<open>content_policy_violation\<close>, the wrapper invokes it no more, waits no more, and
  ends with the invalid-credentials, the rate-limit or the content-policy error; the
  status 401 is looked at first, then the status 429, then the code.
\<close>

theorem retry_fail_fast:
  "k < 3 \<and> (\<forall>i<k. \<exists>e. operation i = Inl e \<and> failFast e = None)
     \<and> operation k = Inl (APIError st cd m)
     \<and> (st = Some 401 \<or> st = Some 429 \<or> cd = Some ''content_policy_violation'')
   \<longrightarrow> retryWithBackoff operation 0 =
         \<lparr>outcome = Inl (JsError (if st = Some 401 then INVALID_API_KEY
                                   else if st = Some 429 then RATE_LIMIT else CONTENT_POLICY)),
          waits = map (\<lambda>n. min (1000 * 2 ^ n) 5000) [0..<k], invocations = Suc k\<rparr>"
proof
  assume a: "k < 3 \<and> (\<forall>i<k. \<exists>e. operation i = Inl e \<and> failFast e = None)
     \<and> operation k = Inl (APIError st cd m)
     \<and> (st = Some 401 \<or> st = Some 429 \<or> cd = Some ''content_policy_violation'')"
  then have b: "0 + k \<le> maxRetries" by (simp add: maxRetries_def)
  have d: "map backoffDelay [0..<k] = map (\<lambda>n. min (1000 * 2 ^ n) 5000) [0..<k]"
    by (simp add: backoffDelay_def initialDelay_def maxDelay_def)
  have lt: "0 + k < maxRetries" using a by (simp add: maxRetries_def)
  have h: "(\<lambda>n. operation (n + k)) 0 = Inl (APIError st cd m)" using a by simp
  have m: "failFast (APIError st cd m) =
     Some (JsError (if st = Some 401 then INVALID_API_KEY
                    else if st = Some 429 then RATE_LIMIT else CONTENT_POLICY))"
    using a failFast_mapped by blast
  have r: "retryWithBackoff (\<lambda>n. operation (n + k)) (0 + k) =
      \<lparr>outcome = Inl (JsError (if st = Some 401 then INVALID_API_KEY
                    else if st = Some 429 then RATE_LIMIT else CONTENT_POLICY)),
       waits = [], invocations = 1\<rparr>"
    using retry_abort [of "\<lambda>n. operation (n + k)" "APIError st cd m" "0 + k"] h lt m by simp
  from a show "retryWithBackoff operation 0 =
         \<lparr>outcome = Inl (JsError (if st = Some 401 then INVALID_API_KEY
                                   else if st = Some 429 then RATE_LIMIT else CONTENT_POLICY)),
          waits = map (\<lambda>n. min (1000 * 2 ^ n) 5000) [0..<k], invocations = Suc k\<rparr>"
    using retry_chain [OF b, of operation] d r
    by (simp add: Let_def)
qed

theorem retry_fail_fast_witness:
  "retryWithBackoff
     (\<lambda>n. if n < 1 then Inl (JsError ''socket hang up'')
           else (Inl (APIError (Some 429) None ''slow down'') :: jsError + string)) 0 =
     \<lparr>outcome = Inl (JsError RATE_LIMIT), waits = [1000], invocations = 2\<rparr>"
  using retry_fail_fast [of 1 "\<lambda>n. if n < 1 then Inl (JsError ''socket hang up'')
           else (Inl (APIError (Some 429) None ''slow down'') :: jsError + string)"
        "Some 429" None "''slow down''"]
  by simp

text \<open>
  Claim C9. Once the retry count has reached the bound, the wrapper rethrows whatever
  the operation threw. So in a run from retry count 0, a provider error of status 401,
  of status 429 or of code \<open>content_policy_violation\<close> on the fourth attempt comes out
  unchanged, and not as the error it is mapped to on the earlier attempts.
\<close>

theorem retry_last_attempt_rethrows:
  "(maxRetries \<le> retryCount \<and> operation 0 = Inl e
      \<longrightarrow> retryWithBackoff operation retryCount =
            \<lparr>outcome = Inl e, waits = [], invocations = 1\<rparr>)
   \<and> ((\<forall>i<3. \<exists>e. operation i = Inl e \<and> failFast e = None)
        \<and> operation 3 = Inl (APIError st cd m)
        \<and> (st = Some 401 \<or> st = Some 429 \<or> cd = Some ''content_policy_violation'')
      \<longrightarrow> outcome (retryWithBackoff operation 0) = Inl (APIError st cd m)
          \<and> outcome (retryWithBackoff operation 0) \<noteq> Inl (JsError (if st = Some 401 then INVALID_API_KEY
                                    else if st = Some 429 then RATE_LIMIT else CONTENT_POLICY)))"
proof (intro conjI impI)
  assume "maxRetries \<le> retryCount \<and> operation 0 = Inl e"
  then show "retryWithBackoff operation retryCount =
            \<lparr>outcome = Inl e, waits = [], invocations = 1\<rparr>"
    by (simp add: retry_exhausted)
next
  assume a: "(\<forall>i<3. \<exists>e. operation i = Inl e \<and> failFast e = None)
        \<and> operation 3 = Inl (APIError st cd m)
        \<and> (st = Some 401 \<or> st = Some 429 \<or> cd = Some ''content_policy_violation'')"
  have b: "0 + 3 \<le> maxRetries" by (simp add: maxRetries_def)
  from a show o: "outcome (retryWithBackoff operation 0) = Inl (APIError st cd m)"
    using retry_chain [OF b, of operation]
    by (simp add: Let_def retry_exhausted maxRetries_def)
  show "outcome (retryWithBackoff operation 0)
          \<noteq> Inl (JsError (if st = Some 401 then INVALID_API_KEY
                            else if st = Some 429 then RATE_LIMIT else CONTENT_POLICY))"
    using o by simp
qed

theorem retry_last_attempt_rethrows_witness:
  "outcome (retryWithBackoff
     (\<lambda>n. if n < 3 then Inl (JsError ''socket hang up'')
           else (Inl (APIError (Some 429) None ''slow down'') :: jsError + string)) 0) =
     Inl (APIError (Some 429) None ''slow down'')
   \<and> retryWithBackoff (\<lambda>n. (Inl (APIError (Some 401) None ''unauthorized'') :: jsError + string)) 3 =
     \<lparr>outcome = Inl (APIError (Some 401) None ''unauthorized''), waits = [], invocations = 1\<rparr>"
  using retry_last_attempt_rethrows [of _ "\<lambda>n. if n < 3 then Inl (JsError ''socket hang up'')
           else (Inl (APIError (Some 429) None ''slow down'') :: jsError + string)" _
        "Some 429" None "''slow down''"]
    retry_last_attempt_rethrows [of 3
        "\<lambda>n. (Inl (APIError (Some 401) None ''unauthorized'') :: jsError + string)"
        "APIError (Some 401) None ''unauthorized''"]
  by (simp add: maxRetries_def)

section \<open>Properties of the matcher\<close>

text \<open>
  The backtracking matcher finds exactly the matches: a position is among the ends it
  lists for a pattern and a start if and only if the pattern matches the text between
  the two positions. So \<open>test\<close> holds if and only if the pattern matches somewhere.
\<close>

lemma litAt_iff_startsWith: "litAt w s = startsWith w s"
  by (induction w s rule: litAt.induct) (auto simp: startsWith_def)

lemma dotRun_ge: "d \<le> dotRun s \<longleftrightarrow> d \<le> length s \<and> (\<forall>i<d. \<not> isLineTerminator (s ! i))"
proof
  assume a: "d \<le> dotRun s"
  have l: "dotRun s \<le> length s" by (simp add: dotRun_def length_takeWhile_le)
  have "\<not> isLineTerminator (s ! i)" if "i < d" for i
  proof -
    from that a have i: "i < length (takeWhile (\<lambda>c. \<not> isLineTerminator c) s)"
      by (simp add: dotRun_def)
    then have "takeWhile (\<lambda>c. \<not> isLineTerminator c) s ! i = s ! i" by (rule takeWhile_nth)
    moreover have "takeWhile (\<lambda>c. \<not> isLineTerminator c) s ! i
        \<in> set (takeWhile (\<lambda>c. \<not> isLineTerminator c) s)" using i by simp
    ultimately show ?thesis using set_takeWhileD by fastforce
  qed
  then show "d \<le> length s \<and> (\<forall>i<d. \<not> isLineTerminator (s ! i))" using a l by auto
next
  assume "d \<le> length s \<and> (\<forall>i<d. \<not> isLineTerminator (s ! i))"
  then show "d \<le> dotRun s"
    unfolding dotRun_def using length_takeWhile_less_P_nth [of d "\<lambda>c. \<not> isLineTerminator c" s]
    by simp
qed

lemma any_plus_positions:
  "j \<in> set (map (\<lambda>k. i + k) [1..<Suc (dotRun (drop i s))]) \<longleftrightarrow>
     i < j \<and> j \<le> length s \<and> (\<forall>k\<in>{i..<j}. \<not> isLineTerminator (s ! k))"
proof
  assume "j \<in> set (map (\<lambda>k. i + k) [1..<Suc (dotRun (drop i s))])"
  then obtain d where d: "1 \<le> d" "d \<le> dotRun (drop i s)" "j = i + d" by auto
  from d(2) have r: "d \<le> length (drop i s)" "\<forall>k<d. \<not> isLineTerminator (drop i s ! k)"
    by (simp_all add: dotRun_ge)
  have "\<not> isLineTerminator (s ! k)" if "k \<in> {i..<j}" for k
  proof -
    from that d(3) have "k - i < d" "i \<le> k" by auto
    with r(2) have "\<not> isLineTerminator (drop i s ! (k - i))" by blast
    moreover have "drop i s ! (k - i) = s ! k" using \<open>i \<le> k\<close> \<open>k - i < d\<close> r(1) by simp
    ultimately show ?thesis by simp
  qed
  with d r(1) show "i < j \<and> j \<le> length s \<and> (\<forall>k\<in>{i..<j}. \<not> isLineTerminator (s ! k))"
    by auto
next
  assume a: "i < j \<and> j \<le> length s \<and> (\<forall>k\<in>{i..<j}. \<not> isLineTerminator (s ! k))"
  define d where "d = j - i"
  have j: "j = i + d" "1 \<le> d" "d \<le> length (drop i s)" using a by (auto simp: d_def)
  have "\<not> isLineTerminator (drop i s ! k)" if "k < d" for k
  proof -
    have "i + k \<in> {i..<j}" using that j by simp
    then have "\<not> isLineTerminator (s ! (i + k))" using a by blast
    moreover have "drop i s ! k = s ! (i + k)" using that j by simp
    ultimately show ?thesis by simp
  qed
  then have "d \<le> dotRun (drop i s)" using j(3) by (simp add: dotRun_ge)
  then show "j \<in> set (map (\<lambda>k. i + k) [1..<Suc (dotRun (drop i s))])" using j by auto
qed

lemma regexEnds_sound: "j \<in> set (regexEnds r s i) \<Longrightarrow> matches r s i j"
proof (induction r s i arbitrary: j rule: regexEnds.induct)
  case (1 w s i)
  then show ?case
    by (auto simp: regexEnds.simps litAt_iff_startsWith intro: matches.m_lit split: if_splits)
next
  case (2 rs s i)
  then show ?case by (auto simp: regexEnds.simps intro: matches.m_alt)
next
  case (3 s i)
  then show ?case by (auto simp: regexEnds.simps intro: matches.m_seq_nil)
next
  case (4 r rs s i)
  then show ?case by (auto simp: regexEnds.simps intro: matches.m_seq_cons)
next
  case (5 s i)
  then show ?case by (auto simp: regexEnds.simps intro: matches.m_boundary split: if_splits)
next
  case (6 s i)
  then show ?case by (auto simp: regexEnds.simps intro: matches.m_start split: if_splits)
next
  case (7 s i)
  then have "j \<in> set (map (\<lambda>k. i + k) [1..<Suc (dotRun (drop i s))])"
    by (simp add: regexEnds.simps del: upt_Suc)
  then show ?case using any_plus_positions [of j i s] by (simp add: matches.m_any)
next
  case (8 s i)
  then have "j \<in> set (map (\<lambda>k. i + k) [1..<Suc (dotRun (drop i s))])"
    by (simp add: regexEnds.simps del: upt_Suc)
  then show ?case using any_plus_positions [of j i s] by (simp add: matches.m_any_lazy)
qed

lemma regexEnds_complete: "matches r s i j \<Longrightarrow> j \<in> set (regexEnds r s i)"
proof (induction rule: matches.induct)
  case (m_any i j s)
  then have "j \<in> set (map (\<lambda>k. i + k) [1..<Suc (dotRun (drop i s))])"
    using any_plus_positions [of j i s] by simp
  then show ?case by (simp add: regexEnds.simps del: upt_Suc)
next
  case (m_any_lazy i j s)
  then have "j \<in> set (map (\<lambda>k. i + k) [1..<Suc (dotRun (drop i s))])"
    using any_plus_positions [of j i s] by simp
  then show ?case by (simp add: regexEnds.simps del: upt_Suc)
qed (auto simp: regexEnds.simps litAt_iff_startsWith)

lemma regexTest_iff_patternMatches: "regexTest r s = patternMatches r s"
proof -
  have "regexTest r s \<longleftrightarrow> (\<exists>i\<le>length s. regexEnds r s i \<noteq> [])"
    by (auto simp: regexTest_def list_ex_iff less_Suc_eq_le simp del: upt_Suc)
  also have "\<dots> \<longleftrightarrow> (\<exists>i\<le>length s. \<exists>j. j \<in> set (regexEnds r s i))"
    by (metis ex_in_conv set_empty)
  also have "\<dots> \<longleftrightarrow> patternMatches r s"
    unfolding patternMatches_def using regexEnds_sound regexEnds_complete by blast
  finally show ?thesis .
qed

section \<open>Properties of the intent classifier\<close>

lemma somePatternTests_iff: "somePatternTests ps s = (\<exists>p\<in>set ps. patternMatches p s)"
  by (induction ps) (auto simp: regexTest_iff_patternMatches)

text \<open>
  Claim C1. The classifier answers \<open>audio\<close> when some audio pattern matches the
  lower-cased input, otherwise \<open>image\<close> when some image pattern matches it, otherwise
  \<open>text\<close>. In particular an input matched by both groups is \<open>audio\<close>, and an input
  matched by neither is \<open>text\<close>.
\<close>

theorem classifier_precedence:
  "determineResponseType prompt =
     (if \<exists>p\<in>set audioPatterns. patternMatches p (toLowerCase prompt) then AudioType
      else if \<exists>p\<in>set imagePatterns. patternMatches p (toLowerCase prompt) then ImageType
      else TextType)
   \<and> ((\<exists>p\<in>set audioPatterns. patternMatches p (toLowerCase prompt))
        \<and> (\<exists>p\<in>set imagePatterns. patternMatches p (toLowerCase prompt))
      \<longrightarrow> determineResponseType prompt = AudioType)
   \<and> (\<not> (\<exists>p\<in>set audioPatterns. patternMatches p (toLowerCase prompt))
        \<and> \<not> (\<exists>p\<in>set imagePatterns. patternMatches p (toLowerCase prompt))
      \<longrightarrow> determineResponseType prompt = TextType)"
  by (simp add: determineResponseType_def somePatternTests_iff Let_def)

theorem classifier_precedence_witness:
  "(\<exists>p\<in>set audioPatterns. patternMatches p (toLowerCase ''Say: draw a picture of a cat''))
   \<and> (\<exists>p\<in>set imagePatterns. patternMatches p (toLowerCase ''Say: draw a picture of a cat''))
   \<and> determineResponseType ''Say: draw a picture of a cat'' = AudioType
   \<and> \<not> (\<exists>p\<in>set audioPatterns. patternMatches p (toLowerCase ''Hello there''))
   \<and> \<not> (\<exists>p\<in>set imagePatterns. patternMatches p (toLowerCase ''Hello there''))
   \<and> determineResponseType ''Hello there'' = TextType
   \<and> \<not> (\<exists>p\<in>set audioPatterns. patternMatches p (toLowerCase ''draw a picture of a cat''))
   \<and> determineResponseType ''draw a picture of a cat'' = ImageType"
proof -
  have a: "\<exists>p\<in>set audioPatterns. regexTest p (toLowerCase ''Say: draw a picture of a cat'')"
    by code_simp
  have b: "\<exists>p\<in>set imagePatterns. regexTest p (toLowerCase ''Say: draw a picture of a cat'')"
    by code_simp
  have c: "\<not> (\<exists>p\<in>set audioPatterns. regexTest p (toLowerCase ''Hello there''))"
    by code_simp
  have d: "\<not> (\<exists>p\<in>set imagePatterns. regexTest p (toLowerCase ''Hello there''))"
    by code_simp
  have e: "\<not> (\<exists>p\<in>set audioPatterns. regexTest p (toLowerCase ''draw a picture of a cat''))"
    by code_simp
  have f: "\<exists>p\<in>set imagePatterns. regexTest p (toLowerCase ''draw a picture of a cat'')"
    by code_simp
  show ?thesis
    using a b c d e f classifier_precedence [of "''Say: draw a picture of a cat''"]
      classifier_precedence [of "''Hello there''"]
      classifier_precedence [of "''draw a picture of a cat''"]
    unfolding regexTest_iff_patternMatches
    by presburger
qed

section \<open>Properties of the chat title\<close>

text \<open>
  The question pattern of \<open>generateChatTitle\<close> is anchored at the start, so only a match
  from position 0 counts; its ends are those of the lazy \<open>.+?\?\<close> after each question
  word the message starts with, in the order of the alternation.
\<close>

lemma canonicalize_qmark: "canonicalize c = canonicalize CHR ''?'' \<longleftrightarrow> c = CHR ''?''"
proof
  assume a: "canonicalize c = canonicalize CHR ''?''"
  have "canonicalize CHR ''?'' = 63" by (simp add: canonicalize_def)
  with a have "(of_char c :: nat) = 63"
    by (auto simp: canonicalize_def Let_def split: if_splits)
  then have "(of_char c :: nat) = of_char CHR ''?''" by simp
  then show "c = CHR ''?''" by (simp only: of_char_eq_iff)
qed simp

lemma litAt_qmark: "litAt ''?'' (drop k msg) \<longleftrightarrow> k < length msg \<and> msg ! k = CHR ''?''"
proof (cases "k < length msg")
  case True
  then have "drop k msg = msg ! k # drop (Suc k) msg" by (simp add: Cons_nth_drop_Suc)
  then show ?thesis using True canonicalize_qmark [of "msg ! k"] by auto
next
  case False
  then show ?thesis by simp
qed

lemma concat_map_if: "concat (map (\<lambda>k. if P k then [f k] else []) xs) = map f (filter P xs)"
  by (induction xs) auto

lemma alt_lits_ends:
  "regexEnds (Alt (map Lit ws)) s i = map (\<lambda>w. i + length w) (filter (\<lambda>w. litAt w (drop i s)) ws)"
  by (induction ws) auto

lemma lazy_question_ends:
  "regexEnds (Seq [AnyPlusLazy, Lit ''?'']) msg j =
     map Suc (filter (\<lambda>k. litAt ''?'' (drop k msg))
                (map (\<lambda>d. j + d) [1..<Suc (dotRun (drop j msg))]))"
proof -
  have t: "regexEnds (Seq [Lit ''?'']) msg = (\<lambda>k. if litAt ''?'' (drop k msg) then [Suc k] else [])"
    by (rule ext) simp
  have "regexEnds (Seq [AnyPlusLazy, Lit ''?'']) msg j =
      concat (map (regexEnds (Seq [Lit ''?'']) msg) (regexEnds AnyPlusLazy msg j))"
    by (simp only: regexEnds.simps)
  also have "\<dots> = concat (map (\<lambda>k. if litAt ''?'' (drop k msg) then [Suc k] else [])
                (map (\<lambda>d. j + d) [1..<Suc (dotRun (drop j msg))]))"
    by (simp only: t regexEnds.simps)
  finally show ?thesis by (simp only: concat_map_if)
qed

lemma lazy_question_sorted: "sorted (regexEnds (Seq [AnyPlusLazy, Lit ''?'']) msg j)"
  unfolding lazy_question_ends
  by (simp add: sorted_map sorted_wrt_filter sorted_wrt_map del: upt_Suc)

lemma lazy_question_set:
  "n \<in> set (regexEnds (Seq [AnyPlusLazy, Lit ''?'']) msg j) \<longleftrightarrow>
     j + 2 \<le> n \<and> n \<le> length msg \<and> msg ! (n - 1) = CHR ''?'' \<and>
     (\<forall>i\<in>{j..<n - 1}. \<not> isLineTerminator (msg ! i))"
proof
  assume "n \<in> set (regexEnds (Seq [AnyPlusLazy, Lit ''?'']) msg j)"
  then obtain d where d: "1 \<le> d" "d \<le> dotRun (drop j msg)" "litAt ''?'' (drop (j + d) msg)"
      "n = Suc (j + d)"
    unfolding lazy_question_ends by auto
  from d(3) have q: "j + d < length msg" "msg ! (j + d) = CHR ''?''"
    by (simp_all add: litAt_qmark)
  from d(2) have r: "\<forall>i<d. \<not> isLineTerminator (drop j msg ! i)"
    by (simp add: dotRun_ge)
  have "\<not> isLineTerminator (msg ! i)" if "i \<in> {j..<n - 1}" for i
  proof -
    from that d(4) have "i - j < d" "j \<le> i" by auto
    with r have "\<not> isLineTerminator (drop j msg ! (i - j))" by blast
    moreover have "drop j msg ! (i - j) = msg ! i" using \<open>j \<le> i\<close> q(1) by simp
    ultimately show ?thesis by simp
  qed
  with d q show "j + 2 \<le> n \<and> n \<le> length msg \<and> msg ! (n - 1) = CHR ''?'' \<and>
     (\<forall>i\<in>{j..<n - 1}. \<not> isLineTerminator (msg ! i))" by auto
next
  assume a: "j + 2 \<le> n \<and> n \<le> length msg \<and> msg ! (n - 1) = CHR ''?'' \<and>
     (\<forall>i\<in>{j..<n - 1}. \<not> isLineTerminator (msg ! i))"
  define d where "d = n - 1 - j"
  have n: "n = Suc (j + d)" "1 \<le> d" using a by (auto simp: d_def)
  have q: "litAt ''?'' (drop (j + d) msg)" using a n by (simp add: litAt_qmark)
  have "\<not> isLineTerminator (drop j msg ! i)" if "i < d" for i
  proof -
    have "j + i \<in> {j..<n - 1}" using that n by simp
    then have "\<not> isLineTerminator (msg ! (j + i))" using a by blast
    moreover have "drop j msg ! i = msg ! (j + i)" using that n a by simp
    ultimately show ?thesis by simp
  qed
  moreover have "d \<le> length (drop j msg)"
  proof -
    from a have "n \<le> length msg" by simp
    with n(1) show ?thesis by simp
  qed
  ultimately have r: "d \<le> dotRun (drop j msg)" by (simp add: dotRun_ge)
  have "j + d \<in> set (map (\<lambda>d. j + d) [1..<Suc (dotRun (drop j msg))])"
    using n(2) r by auto
  then show "n \<in> set (regexEnds (Seq [AnyPlusLazy, Lit ''?'']) msg j)"
    unfolding lazy_question_ends using q n(1) by auto
qed

lemma seq_line_start: "regexEnds (Seq (LineStart # rs)) s 0 = regexEnds (Seq rs) s 0"
  by simp

lemma question_ends_0:
  "regexEnds questionPattern msg 0 =
     concat (map (\<lambda>w. regexEnds (Seq [AnyPlusLazy, Lit ''?'']) msg (length w))
               (filter (\<lambda>w. litAt w msg) questionWords))"
proof -
  have "regexEnds questionPattern msg 0 =
      regexEnds (Seq [Alt (map Lit questionWords), AnyPlusLazy, Lit ''?'']) msg 0"
    unfolding questionPattern_def by (rule seq_line_start)
  also have "\<dots> = concat (map (regexEnds (Seq [AnyPlusLazy, Lit ''?'']) msg)
                (regexEnds (Alt (map Lit questionWords)) msg 0))"
    by (rule regexEnds.simps(4))
  also have "\<dots> = concat (map (regexEnds (Seq [AnyPlusLazy, Lit ''?'']) msg)
                (map length (filter (\<lambda>w. litAt w msg) questionWords)))"
    by (simp only: alt_lits_ends drop_0 add_0)
  finally show ?thesis by (simp only: map_map comp_def)
qed

lemma question_ends_pos: "0 < i \<Longrightarrow> regexEnds questionPattern msg i = []"
  unfolding questionPattern_def by (simp add: regexEnds.simps)


declare regexEnds.simps [simp del]

lemma question_words_order:
  "sorted_wrt (\<lambda>a b. \<not> (length b < length a \<and> litAt b a)) questionWords"
  by code_simp

lemma question_words_letters:
  "\<forall>w\<in>set questionWords. \<forall>c\<in>set w. canonicalize c \<noteq> 10 \<and> canonicalize c \<noteq> 13"
  by code_simp

lemma line_terminator_canonical:
  "isLineTerminator c \<Longrightarrow> canonicalize c = 10 \<or> canonicalize c = 13"
  by (auto simp: isLineTerminator_def canonicalize_def)

lemma startsWith_shorter:
  assumes "startsWith a msg" "startsWith b msg" "length b < length a"
  shows "startsWith b a"
proof -
  have "map canonicalize (take (length b) a) = take (length b) (map canonicalize a)"
    by (simp add: take_map)
  also have "\<dots> = take (length b) (map canonicalize (take (length a) msg))"
    using assms(1) by (simp add: startsWith_def)
  also have "\<dots> = map canonicalize (take (length b) msg)"
    using assms(3) by (simp add: take_map min_def)
  also have "\<dots> = map canonicalize b" using assms(2) by (simp add: startsWith_def)
  finally show ?thesis using assms(3) by (simp add: startsWith_def)
qed

lemma startsWith_no_line_terminator:
  assumes "w \<in> set questionWords" "startsWith w msg" "i < length w"
  shows "\<not> isLineTerminator (msg ! i)"
proof
  assume lt: "isLineTerminator (msg ! i)"
  from assms(2) have eq: "map canonicalize (take (length w) msg) = map canonicalize w"
    and len: "length w \<le> length msg" by (simp_all add: startsWith_def)
  have "map canonicalize (take (length w) msg) ! i = canonicalize (msg ! i)"
    using assms(3) len by simp
  moreover have "map canonicalize w ! i = canonicalize (w ! i)" using assms(3) by simp
  ultimately have "canonicalize (msg ! i) = canonicalize (w ! i)" using eq by simp
  moreover have "w ! i \<in> set w" using assms(3) by simp
  ultimately have "canonicalize (msg ! i) \<noteq> 10 \<and> canonicalize (msg ! i) \<noteq> 13"
    using question_words_letters assms(1) by simp
  then show False using line_terminator_canonical [OF lt] by simp
qed

lemma later_word_ends_subset:
  assumes "w0 \<in> set questionWords" "w \<in> set questionWords"
    "startsWith w0 msg" "startsWith w msg" "length w0 \<le> length w"
  shows "set (regexEnds (Seq [AnyPlusLazy, Lit ''?'']) msg (length w))
       \<subseteq> set (regexEnds (Seq [AnyPlusLazy, Lit ''?'']) msg (length w0))"
proof
  fix n
  assume "n \<in> set (regexEnds (Seq [AnyPlusLazy, Lit ''?'']) msg (length w))"
  then have n: "length w + 2 \<le> n" "n \<le> length msg" "msg ! (n - 1) = CHR ''?''"
      "\<forall>i\<in>{length w..<n - 1}. \<not> isLineTerminator (msg ! i)"
    by (simp_all add: lazy_question_set)
  have "\<not> isLineTerminator (msg ! i)" if "i \<in> {length w0..<n - 1}" for i
  proof (cases "i < length w")
    case True
    then show ?thesis using startsWith_no_line_terminator [OF assms(2) assms(4)] by simp
  next
    case False
    then show ?thesis using n(4) that by simp
  qed
  then show "n \<in> set (regexEnds (Seq [AnyPlusLazy, Lit ''?'']) msg (length w0))"
    using n assms(5) by (simp add: lazy_question_set)
qed

lemma question_ends_hd_least:
  assumes "n \<in> set (regexEnds questionPattern msg 0)"
  shows "hd (regexEnds questionPattern msg 0) \<le> n"
proof -
  let ?E = "\<lambda>w. regexEnds (Seq [AnyPlusLazy, Lit ''?'']) msg (length w)"
  let ?ws = "filter (\<lambda>w. litAt w msg) questionWords"
  have ends: "regexEnds questionPattern msg 0 = concat (map ?E ?ws)"
    by (rule question_ends_0)
  from assms ends obtain w0 rest where ws: "?ws = w0 # rest"
    by (cases ?ws) auto
  have "w0 \<in> set ?ws" using ws by simp
  then have w0: "w0 \<in> set questionWords" "startsWith w0 msg"
    by (simp_all add: litAt_iff_startsWith)
  have "sorted_wrt (\<lambda>a b. \<not> (length b < length a \<and> litAt b a)) ?ws"
    using question_words_order by (rule sorted_wrt_filter)
  then have sw: "sorted_wrt (\<lambda>a b. \<not> (length b < length a \<and> litAt b a)) (w0 # rest)"
    by (simp only: ws)
  have sub: "set (?E w) \<subseteq> set (?E w0)" if "w \<in> set rest" for w
  proof -
    have "w \<in> set ?ws" using that ws by simp
    then have w: "w \<in> set questionWords" "startsWith w msg"
      by (simp_all add: litAt_iff_startsWith)
    have "\<not> (length w < length w0 \<and> litAt w w0)" using sw that by simp
    then have "length w0 \<le> length w"
      using startsWith_shorter [OF w0(2) w(2)] litAt_iff_startsWith by fastforce
    then show ?thesis using later_word_ends_subset [OF w0(1) w(1) w0(2) w(2)] by simp
  qed
  have all: "set (regexEnds questionPattern msg 0) = set (?E w0)"
    using sub by (auto simp: ends ws)
  then have ne: "?E w0 \<noteq> []" using assms by auto
  then have "hd (regexEnds questionPattern msg 0) = hd (?E w0)"
    by (simp add: ends ws)
  moreover have "hd (?E w0) \<le> n"
  proof -
    obtain x xs where x: "?E w0 = x # xs" using ne by (cases "?E w0") auto
    have "sorted (?E w0)" by (rule lazy_question_sorted)
    then show ?thesis using assms all x by auto
  qed
  ultimately show ?thesis by simp
qed

lemma questionEnd_iff: "questionEnd msg n \<longleftrightarrow> n \<in> set (regexEnds questionPattern msg 0)"
  by (auto simp: questionEnd_def question_ends_0 lazy_question_set litAt_iff_startsWith)

lemma find_question_start:
  "find (\<lambda>i. regexEnds questionPattern msg i \<noteq> []) [0..<Suc (length msg)] =
     (if regexEnds questionPattern msg 0 = [] then None else Some 0)"
proof (cases "regexEnds questionPattern msg 0 = []")
  case True
  have "regexEnds questionPattern msg i = []" for i
    using True question_ends_pos [of i msg] by (cases "i = 0") auto
  then show ?thesis using True by (simp add: find_None_iff del: upt_Suc)
next
  case False
  have "[0..<Suc (length msg)] = 0 # [1..<Suc (length msg)]" by (simp add: upt_rec)
  then show ?thesis using False by simp
qed

lemma question_match_is_shortest_prefix: "regexMatch questionPattern msg = questionPrefix msg"
proof (cases "regexEnds questionPattern msg 0 = []")
  case True
  then have "\<not> questionEnd msg n" for n by (simp add: questionEnd_iff)
  then have "find (questionEnd msg) [0..<Suc (length msg)] = None"
    by (simp add: find_None_iff del: upt_Suc)
  then show ?thesis
    using True by (simp add: regexMatch_def questionPrefix_def find_question_start del: upt_Suc)
next
  case False
  let ?h = "hd (regexEnds questionPattern msg 0)"
  have h: "?h \<in> set (regexEnds questionPattern msg 0)" using False by simp
  then have qe: "questionEnd msg ?h" by (simp add: questionEnd_iff)
  then have le: "?h \<le> length msg" by (simp add: questionEnd_def)
  have least: "\<not> questionEnd msg k" if "k < ?h" for k
    using that question_ends_hd_least [of k msg] by (auto simp: questionEnd_iff)
  have "find (questionEnd msg) [0..<Suc (length msg)] = Some ?h"
  proof -
    have "\<exists>i<length [0..<Suc (length msg)]. questionEnd msg ([0..<Suc (length msg)] ! i)
        \<and> ?h = [0..<Suc (length msg)] ! i
        \<and> (\<forall>j<i. \<not> questionEnd msg ([0..<Suc (length msg)] ! j))"
    proof (intro exI [of _ ?h] conjI allI impI)
      show "?h < length [0..<Suc (length msg)]" using le by simp
      show "questionEnd msg ([0..<Suc (length msg)] ! ?h)"
        using qe le by (simp add: nth_upt del: upt_Suc)
      show "?h = [0..<Suc (length msg)] ! ?h" using le by (simp add: nth_upt del: upt_Suc)
      fix j assume "j < ?h"
      then show "\<not> questionEnd msg ([0..<Suc (length msg)] ! j)"
        using least le by (simp add: nth_upt del: upt_Suc)
    qed
    then show ?thesis by (simp only: find_Some_iff)
  qed
  then show ?thesis
    using False by (simp add: regexMatch_def questionPrefix_def find_question_start del: upt_Suc)
qed

section \<open>Properties of the session manager\<close>

lemma set_insertChat: "set (insertChat c ds) = insert c (set ds)"
  by (induction ds) auto


lemma set_sortChats: "set (sortChats cs) = set cs"
  unfolding sortChats_def by (induction cs) (auto simp: set_insertChat)









text \<open>
  Claim C10. A call of \<open>sendMessage\<close> with no chat selected and an attachment of more
  than 10 MB posts nothing and appends no message, yet leaves a new, empty chat at the
  head of the list, selected as the current one.
\<close>

theorem oversized_attachment_without_chat:
  assumes "currentChatId s = None \<or> currentChatId s = Some []"
    and "file = Some f" and "fsize f > 10 * 1024 * 1024"
  shows "posted (sendMessage env s msg file) = None
    \<and> chats (after (sendMessage env s msg file)) =
        \<lparr>id_c = newChatId env, title = ''New Chat'', messages = [],
         createdAt = newChatCreated env, updatedAt = newChatUpdated env\<rparr> # chats s
    \<and> currentChatId (after (sendMessage env s msg file)) = Some (newChatId env)
    \<and> isLoading (after (sendMessage env s msg file)) = isLoading s"
  using assms
  by (auto simp: sendMessage_def createNewChat_def MAX_FILE_SIZE_def Let_def
      split: option.splits)

theorem oversized_attachment_without_chat_witness:
  "posted (sendMessage
      \<lparr>newChatId = ''chat-1'', newChatCreated = 1000, newChatUpdated = 1000,
       newMessageId = ''msg-1'', objectUrl = ''blob:1'', sentAt = 1001\<rparr>
      initialSession ''see attached'' (Some \<lparr>fsize = 10485761, ftype = ''image/png''\<rparr>)) = None
   \<and> after (sendMessage
      \<lparr>newChatId = ''chat-1'', newChatCreated = 1000, newChatUpdated = 1000,
       newMessageId = ''msg-1'', objectUrl = ''blob:1'', sentAt = 1001\<rparr>
      initialSession ''see attached'' (Some \<lparr>fsize = 10485761, ftype = ''image/png''\<rparr>)) =
     \<lparr>chats = [\<lparr>id_c = ''chat-1'', title = ''New Chat'', messages = [],
                createdAt = 1000, updatedAt = 1000\<rparr>],
      currentChatId = Some ''chat-1'', isLoading = False\<rparr>"
  using oversized_attachment_without_chat [of initialSession
      "Some \<lparr>fsize = 10485761, ftype = ''image/png''\<rparr>" "\<lparr>fsize = 10485761, ftype = ''image/png''\<rparr>"
      "\<lparr>newChatId = ''chat-1'', newChatCreated = 1000, newChatUpdated = 1000,
       newMessageId = ''msg-1'', objectUrl = ''blob:1'', sentAt = 1001\<rparr>" "''see attached''"]
  by (simp add: initialSession_def)

text \<open>
  With no chat selected, a send that passes the first check creates a chat (under a
  fresh identifier) and stops there; with a chat of the list selected, it appends the
  message and posts the request.
\<close>

lemma send_without_selection_posts_nothing:
  assumes "currentChatId s = None \<or> currentChatId s = Some []"
    and "newChatId env \<notin> id_c ` set (chats s)"
    and "trim msg \<noteq> [] \<or> file \<noteq> None"
  shows "sendMessage env s msg file =
     \<lparr>after = snd (createNewChat (newChatId env) (newChatCreated env) (newChatUpdated env) s),
      toast = None, posted = None, target = newChatId env\<rparr>"
proof -
  have "find (\<lambda>c. id_c c = newChatId env) (chats s) = None"
    using assms(2) by (force simp: find_None_iff)
  then show ?thesis
    using assms(1,3) by (auto simp: sendMessage_def createNewChat_def Let_def)
qed

lemma send_into_selected_chat_appends:
  assumes "currentChatId s = Some chatId" "chatId \<noteq> []"
    and "find (\<lambda>c. id_c c = chatId) (chats s) = Some found"
    and "trim msg \<noteq> []"
  shows "chats (after (sendMessage env s msg None)) =
     appendUserMessage chatId
       \<lparr>id_m = newMessageId env, role_m = User, content_m = msg, media_m = None\<rparr>
       msg (sentAt env) (chats s)
   \<and> posted (sendMessage env s msg None) =
       Some \<lparr>reqMessage = msg, reqHistory = map (\<lambda>m. (role_m m, content_m m)) (messages found),
             reqFile = None\<rparr>"
  using assms by (simp add: sendMessage_def Let_def)

lemma trim_hello: "trim ''hello'' \<noteq> []"
  by (simp add: trim_def isWhiteSpace_def)


text \<open>
  Claim C5, at a concrete input: the first message of a session, sent while no chat is
  selected. \<open>sendMessage\<close> creates the chat and selects it, but looks the new chat up in
  the \<open>chats\<close> of its own render, where it is not yet, and returns: the chat stays empty
  and nothing is posted.
\<close>

theorem first_send_creates_chat_and_drops_message:
  "sendMessage
      \<lparr>newChatId = ''chat-1'', newChatCreated = 1000, newChatUpdated = 1000,
       newMessageId = ''msg-1'', objectUrl = ''blob:1'', sentAt = 1001\<rparr>
      initialSession ''hello'' None =
     \<lparr>after = \<lparr>chats = [\<lparr>id_c = ''chat-1'', title = ''New Chat'', messages = [],
                         createdAt = 1000, updatedAt = 1000\<rparr>],
               currentChatId = Some ''chat-1'', isLoading = False\<rparr>,
      toast = None, posted = None, target = ''chat-1''\<rparr>"
  by (simp add: sendMessage_def createNewChat_def initialSession_def trim_hello)

text \<open>
  Claim C6, as stated, at a concrete input: a message of 45 characters whose first
  question mark comes right after the question word. The title is the first 30
  characters of the message and an ellipsis: not the prefix up to the first question
  mark, and not the first four words.
\<close>

theorem chat_title_question_counterexample:
  "length ''Why? Because the sky is blue, is it not? Yes.'' = 45
   \<and> generateChatTitle ''Why? Because the sky is blue, is it not? Yes.''
       = ''Why? Because the sky is blue, ...''
   \<and> take 30 (takeWhile (\<lambda>c. c \<noteq> CHR ''?'') ''Why? Because the sky is blue, is it not? Yes.'' @ ''?'')
         @ ''...'' = ''Why?...''
   \<and> generateChatTitle ''Why? Because the sky is blue, is it not? Yes.'' \<noteq> ''Why?...''
   \<and> generateChatTitle ''Why? Because the sky is blue, is it not? Yes.''
       \<noteq> joinWith '' '' (take 4 (splitOn CHR '' '' ''Why? Because the sky is blue, is it not? Yes.''))
           @ ''...''"
  by code_simp

text \<open>
  Claim C6, amended. The title made from a message is the message itself when it is
  shorter than 30 characters; otherwise, when the message starts with a question word
  followed by one or more characters other than line terminators and a question mark,
  the shortest such prefix, cut to 30 characters, and an ellipsis; otherwise its first
  four space-separated pieces and an ellipsis. A send that posts into the selected chat
  updates the chats through \<open>withUserMessage\<close>, which sets the title so when the chat
  has no message, and leaves the title alone when it has one; a chat with a message
  keeps having one, so no later send or reply changes the title.
\<close>

theorem chat_title_from_first_message:
  "generateChatTitle msg =
     (if length msg < 30 then msg
      else (case questionPrefix msg of
              Some p \<Rightarrow> take 30 p @ ''...''
            | None \<Rightarrow> joinWith '' '' (take 4 (splitOn CHR '' '' msg)) @ ''...''))
   \<and> (currentChatId s = Some chatId \<and> chatId \<noteq> [] \<and> (\<exists>c\<in>set (chats s). id_c c = chatId)
        \<and> posted (sendMessage env s msg file) \<noteq> None
      \<longrightarrow> (\<exists>m. set (chats (after (sendMessage env s msg file))) =
                 withUserMessage chatId m msg (sentAt env) ` set (chats s)))
   \<and> (id_c c = chatId \<and> messages c = []
      \<longrightarrow> title (withUserMessage chatId m msg now c) = generateChatTitle msg
          \<and> messages (withUserMessage chatId m msg now c) \<noteq> [])
   \<and> (id_c c = chatId \<and> messages c \<noteq> []
      \<longrightarrow> title (withUserMessage chatId m msg now c) = title c
          \<and> messages (withUserMessage chatId m msg now c) \<noteq> [])
   \<and> (messages c \<noteq> []
      \<longrightarrow> title (withAssistantMessage chatId newId ty ct url now c) = title c
          \<and> messages (withAssistantMessage chatId newId ty ct url now c) \<noteq> [])
   \<and> (id_c c = chatId \<and> messages c = []
      \<longrightarrow> title (withUserMessage chatId m' msg' now'
                   (withAssistantMessage chatId newId ty ct url now''
                      (withUserMessage chatId m msg now c))) = generateChatTitle msg)"
proof (intro conjI impI)
  show "generateChatTitle msg =
     (if length msg < 30 then msg
      else (case questionPrefix msg of
              Some p \<Rightarrow> take 30 p @ ''...''
            | None \<Rightarrow> joinWith '' '' (take 4 (splitOn CHR '' '' msg)) @ ''...''))"
    by (simp only: generateChatTitle_def question_match_is_shortest_prefix)
next
  assume a: "currentChatId s = Some chatId \<and> chatId \<noteq> [] \<and> (\<exists>c\<in>set (chats s). id_c c = chatId)
        \<and> posted (sendMessage env s msg file) \<noteq> None"
  then obtain c0 where "find (\<lambda>c. id_c c = chatId) (chats s) = Some c0"
    by (cases "find (\<lambda>c. id_c c = chatId) (chats s)") (auto simp: find_None_iff)
  with a show "\<exists>m. set (chats (after (sendMessage env s msg file))) =
                 withUserMessage chatId m msg (sentAt env) ` set (chats s)"
    by (auto simp: sendMessage_def appendUserMessage_def set_sortChats Let_def
        split: if_splits)
qed (simp_all add: withUserMessage_def withAssistantMessage_def)

theorem chat_title_from_first_message_witness:
  "generateChatTitle ''What is the capital of France?'' = ''What is the capital of France?...''
   \<and> title (withUserMessage ''a'' \<lparr>id_m = ''m3'', role_m = User, content_m = ''And of Spain?'', media_m = None\<rparr>
              ''And of Spain?'' 30
             (withAssistantMessage ''a'' ''m2'' ''text'' ''Paris.'' [] 20
               (withUserMessage ''a''
                  \<lparr>id_m = ''m1'', role_m = User, content_m = ''What is the capital of France?'', media_m = None\<rparr>
                  ''What is the capital of France?'' 10
                  \<lparr>id_c = ''a'', title = ''New Chat'', messages = [], createdAt = 5, updatedAt = 5\<rparr>)))
       = ''What is the capital of France?...''"
proof -
  have q: "questionPrefix ''What is the capital of France?'' = Some ''What is the capital of France?''"
    by code_simp
  have g: "generateChatTitle ''What is the capital of France?'' = ''What is the capital of France?...''"
    using chat_title_from_first_message [of "''What is the capital of France?''"] q
    by simp
  show ?thesis
    using g chat_title_from_first_message
      [where msg = "''What is the capital of France?''" and chatId = "''a''"
         and c = "\<lparr>id_c = ''a'', title = ''New Chat'', messages = [], createdAt = 5, updatedAt = 5\<rparr>"
         and m = "\<lparr>id_m = ''m1'', role_m = User, content_m = ''What is the capital of France?'', media_m = None\<rparr>"
         and now = 10 and newId = "''m2''" and ty = "''text''" and ct = "''Paris.''" and url = "[]"
         and now'' = 20
         and m' = "\<lparr>id_m = ''m3'', role_m = User, content_m = ''And of Spain?'', media_m = None\<rparr>"
         and msg' = "''And of Spain?''" and now' = 30]
    by simp
qed

section \<open>Properties of the request dispatcher\<close>






text \<open>
  Claim C8, as stated, at two concrete inputs: an empty message sent to a server that
  has no API key, and a body that cannot be read as a form. Both get status 500.
\<close>

theorem post_invalid_message_counterexample:
  "POST None (Inr \<lparr>messageField = Some (StringEntry ''''), historyField = None\<rparr>)
     \<lparr>chatCompletion = (\<lambda>n msgs. Inr (Some ''Hi!'')),
      imagesGenerate = (\<lambda>n prompt. Inr None),
      speechCreate = (\<lambda>n input. Inl NonError)\<rparr> =
   \<lparr>response = \<lparr>status = 500, body = ErrorBody MISSING_API_KEY\<rparr>,
    dispatched = None, generationCalls = 0\<rparr>
   \<and> POST (Some ''sk-test'') (Inl (JsError ''Failed to parse body as FormData.''))
     \<lparr>chatCompletion = (\<lambda>n msgs. Inr (Some ''Hi!'')),
      imagesGenerate = (\<lambda>n prompt. Inr None),
      speechCreate = (\<lambda>n input. Inl NonError)\<rparr> =
   \<lparr>response = \<lparr>status = 500, body = ErrorBody ''Failed to parse body as FormData.''\<rparr>,
    dispatched = None, generationCalls = 0\<rparr>"
  by (simp add: POST_def errorMessage_def)

text \<open>
  Claim C8, amended. With the API key configured and the body read as a form, a
  message that is missing, is a file, or is empty after trimming gets status 400 with
  the error \<open>INVALID_REQUEST\<close>, and no generation routine is invoked.
\<close>

theorem post_rejects_invalid_message:
  "apiKey = Some k \<and> k \<noteq> []
     \<and> (messageField form = None \<or> messageField form = Some FileEntry
          \<or> (\<exists>m. messageField form = Some (StringEntry m) \<and> trim m = []))
   \<longrightarrow> POST apiKey (Inr form) pv =
         \<lparr>response = \<lparr>status = 400, body = ErrorBody INVALID_REQUEST\<rparr>,
          dispatched = None, generationCalls = 0\<rparr>"
  by (auto simp: POST_def)

theorem post_rejects_invalid_message_witness:
  "POST (Some ''sk-test'') (Inr \<lparr>messageField = Some (StringEntry ''   ''), historyField = None\<rparr>)
     \<lparr>chatCompletion = (\<lambda>n msgs. Inr (Some ''Hi!'')),
      imagesGenerate = (\<lambda>n prompt. Inr None),
      speechCreate = (\<lambda>n input. Inl NonError)\<rparr> =
   \<lparr>response = \<lparr>status = 400, body = ErrorBody INVALID_REQUEST\<rparr>,
    dispatched = None, generationCalls = 0\<rparr>"
proof -
  have t: "trim ''   '' = []" by (simp add: trim_def isWhiteSpace_def)
  show ?thesis
    using t post_rejects_invalid_message [of "Some ''sk-test''" "''sk-test''"
        "\<lparr>messageField = Some (StringEntry ''   ''), historyField = None\<rparr>"]
    by simp
qed

end
